theory Spec2Isabelle
  imports Main
begin

section \<open>JSON values as the handlers see them\<close>

text \<open>
  The handlers of \<^verbatim>\<open>api.py\<close> work on the value returned by \<^verbatim>\<open>request.get_json()\<close>: a
  Python object built from \<^verbatim>\<open>None\<close>, \<^verbatim>\<open>bool\<close>, \<^verbatim>\<open>int\<close>, \<^verbatim>\<open>str\<close>, \<^verbatim>\<open>list\<close> and \<^verbatim>\<open>dict\<close>.
  A \<^verbatim>\<open>dict\<close> is an association list in insertion order; a Python dictionary has no
  duplicate key, which \<open>wf_json\<close> states. Floating-point numbers are outside the model,
  and a string is a list of 8-bit characters (code points below 256).
\<close>

datatype json =
    JNull
  | JBool bool
  | JInt int
  | JStr string
  | JArr "json list"
  | JObj "(string \<times> json) list"


text \<open>Python's truth value of an object, as \<^verbatim>\<open>if title:\<close> takes it.\<close>

fun truthy :: "json \<Rightarrow> bool" where
  "truthy JNull = False"
| "truthy (JBool b) = b"
| "truthy (JInt i) = (i \<noteq> 0)"
| "truthy (JStr s) = (s \<noteq> [])"
| "truthy (JArr xs) = (xs \<noteq> [])"
| "truthy (JObj kvs) = (kvs \<noteq> [])"

text \<open>The exceptions a handler can raise.\<close>

datatype py_error =
    KeyError
  | TypeError
  | AttributeError
  | JSONDecodeError
  | MultipleResultsFound
  | StorageError

text \<open>\<^verbatim>\<open>needle in haystack\<close> on two strings is a substring test.\<close>

fun starts_with :: "string \<Rightarrow> string \<Rightarrow> bool" where
  "starts_with [] s = True"
| "starts_with (p # ps) [] = False"
| "starts_with (p # ps) (c # cs) = (p = c \<and> starts_with ps cs)"

fun substring :: "string \<Rightarrow> string \<Rightarrow> bool" where
  "substring p [] = (p = [])"
| "substring p (c # cs) = (starts_with p (c # cs) \<or> substring p cs)"

text \<open>
  \<^verbatim>\<open>key in body\<close>: key membership on a dict, element membership on a list, substring
  on a string, and a \<^verbatim>\<open>TypeError\<close> on \<^verbatim>\<open>None\<close>, a bool or an int.
\<close>

fun contains :: "json \<Rightarrow> string \<Rightarrow> py_error + bool" where
  "contains (JObj kvs) k = Inr (k \<in> set (map fst kvs))"
| "contains (JArr xs) k = Inr (JStr k \<in> set xs)"
| "contains (JStr s) k = Inr (substring k s)"
| "contains _ k = Inl TypeError"

text \<open>\<^verbatim>\<open>body[key]\<close> with a string key: only a dict can answer, and only for a key it has.\<close>

fun getitem :: "json \<Rightarrow> string \<Rightarrow> py_error + json" where
  "getitem (JObj kvs) k = (case map_of kvs k of None \<Rightarrow> Inl KeyError | Some v \<Rightarrow> Inr v)"
| "getitem _ k = Inl TypeError"

text \<open>\<^verbatim>\<open>body.get(key)\<close>: \<^verbatim>\<open>None\<close> for a missing key; only a dict has the method.\<close>

fun get :: "json \<Rightarrow> string \<Rightarrow> py_error + json" where
  "get (JObj kvs) k = (case map_of kvs k of None \<Rightarrow> Inr JNull | Some v \<Rightarrow> Inr v)"
| "get _ k = Inl AttributeError"

section \<open>Serialisation: \<^verbatim>\<open>json.dumps\<close> and \<^verbatim>\<open>json.loads\<close>\<close>

text \<open>
  \<^verbatim>\<open>json.dumps\<close> with its default arguments: separators \<^verbatim>\<open>", "\<close> and \<^verbatim>\<open>": "\<close>, and
  \<^verbatim>\<open>ensure_ascii\<close>, so that every character outside the printable ASCII range, the
  double quote and the backslash are escaped.
\<close>

abbreviation dquote :: char where "dquote \<equiv> CHR 0x22"
abbreviation backslash :: char where "backslash \<equiv> CHR 0x5C"

definition hex_digit :: "nat \<Rightarrow> char" where
  "hex_digit d = (if d < 10 then char_of (48 + d) else char_of (87 + d))"

definition escape_char :: "char \<Rightarrow> string" where
  "escape_char c =
     (if c = dquote then [backslash, dquote]
      else if c = backslash then [backslash, backslash]
      else if c = CHR 0x08 then [backslash, CHR ''b'']
      else if c = CHR 0x0C then [backslash, CHR ''f'']
      else if c = CHR 0x0A then [backslash, CHR ''n'']
      else if c = CHR 0x0D then [backslash, CHR ''r'']
      else if c = CHR 0x09 then [backslash, CHR ''t'']
      else if 32 \<le> (of_char c :: nat) \<and> (of_char c :: nat) \<le> 126 then [c]
      else [backslash, CHR ''u'', CHR ''0'', CHR ''0'',
            hex_digit ((of_char c :: nat) div 16), hex_digit ((of_char c :: nat) mod 16)])"

definition encode_basestring_ascii :: "string \<Rightarrow> string" where
  "encode_basestring_ascii s = dquote # concat (map escape_char s) @ [dquote]"

fun show_nat :: "nat \<Rightarrow> string" where
  "show_nat n =
     (if n < 10 then [char_of (48 + n)]
      else show_nat (n div 10) @ [char_of (48 + n mod 10)])"

declare show_nat.simps [simp del]

definition show_int :: "int \<Rightarrow> string" where
  "show_int i = (if i < 0 then CHR ''-'' # show_nat (nat (- i)) else show_nat (nat i))"

text \<open>\<^verbatim>\<open>", ".join(items)\<close>\<close>

fun join :: "string list \<Rightarrow> string" where
  "join [] = []"
| "join [x] = x"
| "join (x # y # ys) = x @ '', '' @ join (y # ys)"

fun dumps :: "json \<Rightarrow> string" where
  "dumps JNull = ''null''"
| "dumps (JBool b) = (if b then ''true'' else ''false'')"
| "dumps (JInt i) = show_int i"
| "dumps (JStr s) = encode_basestring_ascii s"
| "dumps (JArr xs) = ''['' @ join (map dumps xs) @ '']''"
| "dumps (JObj kvs) =
     ''{'' @ join (map (\<lambda>kv. encode_basestring_ascii (fst kv) @ '': '' @ dumps (snd kv)) kvs)
     @ ''}''"

text \<open>
  \<^verbatim>\<open>json.loads\<close>: the scanner of \<^verbatim>\<open>json.decoder\<close> and \<^verbatim>\<open>json.scanner\<close>. White space is
  skipped where the decoder skips it. A number with a fraction or an exponent,
  \<^verbatim>\<open>NaN\<close> and \<^verbatim>\<open>Infinity\<close> would be a float, and an escape \<^verbatim>\<open>\uXXXX\<close> above 255 a character
  the model does not have: the model rejects them.
\<close>

definition is_ws :: "char \<Rightarrow> bool" where
  "is_ws c = (c = CHR '' '' \<or> c = CHR 0x09 \<or> c = CHR 0x0A \<or> c = CHR 0x0D)"

definition skip_ws :: "string \<Rightarrow> string" where
  "skip_ws s = dropWhile is_ws s"

definition is_digit :: "char \<Rightarrow> bool" where
  "is_digit c = (48 \<le> (of_char c :: nat) \<and> (of_char c :: nat) \<le> 57)"

definition digit_val :: "char \<Rightarrow> nat" where
  "digit_val c = of_char c - 48"

definition hex_val :: "char \<Rightarrow> nat option" where
  "hex_val c =
     (let n = (of_char c :: nat) in
      if 48 \<le> n \<and> n \<le> 57 then Some (n - 48)
      else if 97 \<le> n \<and> n \<le> 102 then Some (n - 87)
      else if 65 \<le> n \<and> n \<le> 70 then Some (n - 55)
      else None)"

text \<open>The four hexadecimal digits after \<^verbatim>\<open>\u\<close>, as a code point.\<close>

fun decode_uXXXX :: "string \<Rightarrow> nat option" where
  "decode_uXXXX (a # b # c # d # r) =
     (case (hex_val a, hex_val b, hex_val c, hex_val d) of
        (Some x, Some y, Some z, Some w) \<Rightarrow> Some (((x * 16 + y) * 16 + z) * 16 + w)
      | _ \<Rightarrow> None)"
| "decode_uXXXX _ = None"

definition unescape :: "char \<Rightarrow> char option" where
  "unescape e =
     (if e = dquote then Some dquote
      else if e = backslash then Some backslash
      else if e = CHR ''/'' then Some CHR ''/''
      else if e = CHR ''b'' then Some (CHR 0x08)
      else if e = CHR ''f'' then Some (CHR 0x0C)
      else if e = CHR ''n'' then Some (CHR 0x0A)
      else if e = CHR ''r'' then Some (CHR 0x0D)
      else if e = CHR ''t'' then Some (CHR 0x09)
      else None)"

definition cons_fst :: "'a \<Rightarrow> ('a list \<times> 'b) option \<Rightarrow> ('a list \<times> 'b) option" where
  "cons_fst x r = (case r of None \<Rightarrow> None | Some (xs, rest) \<Rightarrow> Some (x # xs, rest))"

text \<open>
  \<^verbatim>\<open>scanstring\<close> in strict mode, from the character after the opening quote: the
  decoded string and the input after the closing quote.
\<close>

fun scanstring :: "string \<Rightarrow> (string \<times> string) option" where
  "scanstring [] = None"
| "scanstring (c # cs) =
     (if c = dquote then Some ([], cs)
      else if c = backslash then
        (case cs of
           [] \<Rightarrow> None
         | e # r \<Rightarrow>
             if e = CHR ''u'' then
               (case decode_uXXXX r of
                  None \<Rightarrow> None
                | Some n \<Rightarrow> if n < 256 then cons_fst (char_of n) (scanstring (drop 4 r)) else None)
             else
               (case unescape e of
                  None \<Rightarrow> None
                | Some ch \<Rightarrow> cons_fst ch (scanstring r)))
      else if (of_char c :: nat) < 32 then None
      else cons_fst c (scanstring cs))"

text \<open>
  The number pattern \<^verbatim>\<open>(-?(?:0|[1-9]\d*))(\.\d+)?([eE][-+]?\d+)?\<close>: the integer part,
  and whether a fraction or an exponent follows it.
\<close>

definition int_part :: "string \<Rightarrow> (nat \<times> string) option" where
  "int_part s =
     (case s of
        [] \<Rightarrow> None
      | c # cs \<Rightarrow>
          if c = CHR ''0'' then Some (0, cs)
          else if is_digit c then
            Some (foldl (\<lambda>a d. 10 * a + digit_val d) 0 (c # takeWhile is_digit cs),
                  dropWhile is_digit cs)
          else None)"

definition has_frac :: "string \<Rightarrow> bool" where
  "has_frac s = (case s of c # d # _ \<Rightarrow> c = CHR ''.'' \<and> is_digit d | _ \<Rightarrow> False)"

definition has_exp :: "string \<Rightarrow> bool" where
  "has_exp s =
     (case s of
        c # d # r \<Rightarrow>
          (c = CHR ''e'' \<or> c = CHR ''E'') \<and>
          (is_digit d \<or> ((d = CHR ''-'' \<or> d = CHR ''+'') \<and> (case r of [] \<Rightarrow> False | x # _ \<Rightarrow> is_digit x)))
      | _ \<Rightarrow> False)"

definition match_number :: "string \<Rightarrow> (json \<times> string) option" where
  "match_number s =
     (case s of
        [] \<Rightarrow> None
      | c # cs \<Rightarrow>
          (case (if c = CHR ''-'' then int_part cs else int_part s) of
             None \<Rightarrow> None
           | Some (n, rest) \<Rightarrow>
               if has_frac rest \<or> has_exp rest then None
               else Some (JInt (if c = CHR ''-'' then - int n else int n), rest)))"

text \<open>\<^verbatim>\<open>dict(pairs)\<close>: a later pair with the same key replaces the value in place.\<close>

fun setitem :: "(string \<times> json) list \<Rightarrow> string \<Rightarrow> json \<Rightarrow> (string \<times> json) list" where
  "setitem [] k v = [(k, v)]"
| "setitem (p # ps) k v = (if fst p = k then (k, v) # ps else p # setitem ps k v)"

definition dict :: "(string \<times> json) list \<Rightarrow> (string \<times> json) list" where
  "dict pairs = foldl (\<lambda>d kv. setitem d (fst kv) (snd kv)) [] pairs"

text \<open>
  \<open>scan_once\<close> reads one value, \<open>JSONArray\<close> the elements of an array after its first
  bracket, \<open>JSONObject\<close> the members of an object from the first key's quote. The
  first argument bounds the nesting and the number of elements; \<open>loads\<close> passes the
  length of the text, which is enough since every step consumes a character.
\<close>

fun scan_once :: "nat \<Rightarrow> string \<Rightarrow> (json \<times> string) option"
  and JSONArray :: "nat \<Rightarrow> string \<Rightarrow> (json list \<times> string) option"
  and JSONObject :: "nat \<Rightarrow> string \<Rightarrow> ((string \<times> json) list \<times> string) option"
where
  "scan_once 0 s = None"
| "scan_once (Suc n) s =
     (case s of
        [] \<Rightarrow> None
      | c # cs \<Rightarrow>
          if c = dquote then
            (case scanstring cs of None \<Rightarrow> None | Some (t, rest) \<Rightarrow> Some (JStr t, rest))
          else if c = CHR ''{'' then
            (case skip_ws cs of
               [] \<Rightarrow> None
             | d # ds \<Rightarrow>
                 if d = CHR ''}'' then Some (JObj [], ds)
                 else if d = dquote then
                   (case JSONObject n ds of
                      None \<Rightarrow> None
                    | Some (pairs, rest) \<Rightarrow> Some (JObj (dict pairs), rest))
                 else None)
          else if c = CHR ''['' then
            (case skip_ws cs of
               [] \<Rightarrow> None
             | d # ds \<Rightarrow>
                 if d = CHR '']'' then Some (JArr [], ds)
                 else
                   (case JSONArray n (d # ds) of
                      None \<Rightarrow> None
                    | Some (vs, rest) \<Rightarrow> Some (JArr vs, rest)))
          else if starts_with ''null'' s then Some (JNull, drop 4 s)
          else if starts_with ''true'' s then Some (JBool True, drop 4 s)
          else if starts_with ''false'' s then Some (JBool False, drop 5 s)
          else match_number s)"
| "JSONArray 0 s = None"
| "JSONArray (Suc n) s =
     (case scan_once n s of
        None \<Rightarrow> None
      | Some (v, rest) \<Rightarrow>
          (case skip_ws rest of
             [] \<Rightarrow> None
           | d # ds \<Rightarrow>
               if d = CHR '']'' then Some ([v], ds)
               else if d = CHR '','' then cons_fst v (JSONArray n (skip_ws ds))
               else None))"
| "JSONObject 0 s = None"
| "JSONObject (Suc n) s =
     (case scanstring s of
        None \<Rightarrow> None
      | Some (key, rest) \<Rightarrow>
          (case skip_ws rest of
             [] \<Rightarrow> None
           | c # cs \<Rightarrow>
               if c \<noteq> CHR '':'' then None
               else
                 (case scan_once n (skip_ws cs) of
                    None \<Rightarrow> None
                  | Some (v, rest') \<Rightarrow>
                      (case skip_ws rest' of
                         [] \<Rightarrow> None
                       | d # ds \<Rightarrow>
                           if d = CHR ''}'' then Some ([(key, v)], ds)
                           else if d = CHR '','' then
                             (case skip_ws ds of
                                [] \<Rightarrow> None
                              | q # qs \<Rightarrow>
                                  if q = dquote then cons_fst (key, v) (JSONObject n qs)
                                  else None)
                           else None))))"

definition loads :: "string \<Rightarrow> json option" where
  "loads s =
     (case scan_once (Suc (length s)) (skip_ws s) of
        None \<Rightarrow> None
      | Some (v, rest) \<Rightarrow> if skip_ws rest = [] then Some v else None)"

section \<open>The Drink store\<close>

text \<open>
  Modelled from the spec: the class \<^verbatim>\<open>Drink\<close> of \<^verbatim>\<open>database/models.py\<close>, which is not
  among the sources. A drink has an \<open>id\<close> assigned by the store, a \<open>title\<close> and a
  \<open>recipe\<close> kept as serialised text. The handlers hand the store whatever value the
  body gives for the title, so the field holds a JSON value.
\<close>

record drink =
  drink_id :: nat
  title :: json
  recipe :: string

text \<open>
  Modelled from the spec: the persisted table of drinks with the store's id counter
  ("natural monotonic assignment"). \<open>calls\<close> counts the store operations invoked;
  it is bookkeeping for the gating property and not part of the persisted data.
\<close>

record store =
  rows :: "drink list"
  next_id :: nat
  calls :: nat

definition called :: "store \<Rightarrow> store" where
  "called s = s\<lparr>calls := Suc (calls s)\<rparr>"

text \<open>
  Modelled from the spec: \<open>list_all\<close>, the drinks ordered by id ascending
  (\<^verbatim>\<open>Drink.query.order_by(Drink.id).all()\<close>).
\<close>

definition query_all :: "store \<Rightarrow> drink list \<times> store" where
  "query_all s = (sort_key drink_id (rows s), called s)"

text \<open>
  Modelled from the spec: the lookup by id
  (\<^verbatim>\<open>Drink.query.filter(Drink.id == id).one_or_none()\<close>): the row, \<^verbatim>\<open>None\<close> when there is
  none, and an exception when several rows match.
\<close>

definition one_or_none :: "nat \<Rightarrow> store \<Rightarrow> (py_error + drink option) \<times> store" where
  "one_or_none i s =
     (case filter (\<lambda>d. drink_id d = i) (rows s) of
        [] \<Rightarrow> (Inr None, called s)
      | [d] \<Rightarrow> (Inr (Some d), called s)
      | _ \<Rightarrow> (Inl MultipleResultsFound, called s))"

text \<open>
  Modelled from the spec: \<open>create\<close>, \<open>update\<close> and \<open>delete\<close> of the store
  (\<^verbatim>\<open>drink.insert()\<close>, \<^verbatim>\<open>drink.update()\<close>, \<^verbatim>\<open>drink.delete()\<close>). Each persists at once and is
  atomic: when the underlying storage fails (\<open>commit_ok\<close> is false) nothing is
  written and the caller gets an exception.
\<close>

definition insert_drink :: "bool \<Rightarrow> json \<Rightarrow> string \<Rightarrow> store \<Rightarrow> (py_error + drink) \<times> store" where
  "insert_drink commit_ok t r s =
     (if commit_ok then
        (let d = \<lparr>drink_id = next_id s, title = t, recipe = r\<rparr>
         in (Inr d, called (s\<lparr>rows := rows s @ [d], next_id := Suc (next_id s)\<rparr>)))
      else (Inl StorageError, called s))"

definition update_drink :: "bool \<Rightarrow> drink \<Rightarrow> store \<Rightarrow> (py_error + unit) \<times> store" where
  "update_drink commit_ok d s =
     (if commit_ok then
        (Inr (), called (s\<lparr>rows := map (\<lambda>r. if drink_id r = drink_id d then d else r) (rows s)\<rparr>))
      else (Inl StorageError, called s))"

definition delete_drink :: "bool \<Rightarrow> drink \<Rightarrow> store \<Rightarrow> (py_error + unit) \<times> store" where
  "delete_drink commit_ok d s =
     (if commit_ok then
        (Inr (), called (s\<lparr>rows := filter (\<lambda>r. drink_id r \<noteq> drink_id d) (rows s)\<rparr>))
      else (Inl StorageError, called s))"

text \<open>
  Modelled from the spec: the two projections of a drink (\<^verbatim>\<open>drink.long()\<close> and
  \<^verbatim>\<open>drink.short()\<close>). Both parse the stored recipe; the short form omits \<open>parts\<close> from
  each recipe element.
\<close>

definition omit_parts :: "json \<Rightarrow> json" where
  "omit_parts r = (case r of JObj kvs \<Rightarrow> JObj (filter (\<lambda>kv. fst kv \<noteq> ''parts'') kvs) | _ \<Rightarrow> r)"

definition redact :: "json \<Rightarrow> json" where
  "redact r = (case r of JArr xs \<Rightarrow> JArr (map omit_parts xs) | _ \<Rightarrow> omit_parts r)"

definition long :: "drink \<Rightarrow> py_error + json" where
  "long d =
     (case loads (recipe d) of
        None \<Rightarrow> Inl JSONDecodeError
      | Some r \<Rightarrow> Inr (JObj [(''id'', JInt (int (drink_id d))), (''title'', title d), (''recipe'', r)]))"

definition short :: "drink \<Rightarrow> py_error + json" where
  "short d =
     (case loads (recipe d) of
        None \<Rightarrow> Inl JSONDecodeError
      | Some r \<Rightarrow>
          Inr (JObj [(''id'', JInt (int (drink_id d))), (''title'', title d), (''recipe'', redact r)]))"

text \<open>A list comprehension over a call that may raise: the first exception wins.\<close>

fun comprehension :: "('a \<Rightarrow> py_error + 'b) \<Rightarrow> 'a list \<Rightarrow> py_error + 'b list" where
  "comprehension f [] = Inr []"
| "comprehension f (x # xs) =
     (case f x of
        Inl e \<Rightarrow> Inl e
      | Inr y \<Rightarrow> (case comprehension f xs of Inl e \<Rightarrow> Inl e | Inr ys \<Rightarrow> Inr (y # ys)))"

section \<open>Authorisation\<close>

text \<open>
  Modelled from the spec: \<^verbatim>\<open>AuthError\<close> and \<^verbatim>\<open>requires_auth\<close> of \<^verbatim>\<open>auth/auth.py\<close>, which is
  not among the sources. An \<^verbatim>\<open>AuthError\<close> carries a dictionary with the failure's
  description and a status code. The spec fixes the status of each failure, not the
  text of its message: the failure's name stands for it.
\<close>

record AuthError =
  error :: "(string \<times> string) list"
  status_code :: nat

datatype verify_failure = invalid_token | token_expired | invalid_claims

datatype auth_failure =
    missing_header
  | invalid_header
  | verification verify_failure
  | permissions_missing
  | unauthorized

fun failure_name :: "auth_failure \<Rightarrow> string" where
  "failure_name missing_header = ''missing_header''"
| "failure_name invalid_header = ''invalid_header''"
| "failure_name (verification invalid_token) = ''invalid_token''"
| "failure_name (verification token_expired) = ''token_expired''"
| "failure_name (verification invalid_claims) = ''invalid_claims''"
| "failure_name permissions_missing = ''permissions_missing''"
| "failure_name unauthorized = ''unauthorized''"

fun failure_status :: "auth_failure \<Rightarrow> nat" where
  "failure_status permissions_missing = 400"
| "failure_status unauthorized = 403"
| "failure_status _ = 401"

definition raise_AuthError :: "auth_failure \<Rightarrow> AuthError" where
  "raise_AuthError f =
     \<lparr>error = [(''code'', failure_name f), (''description'', failure_name f)],
      status_code = failure_status f\<rparr>"

text \<open>The decoded claim set: the permissions list, when the token carries one.\<close>

record claims =
  permissions :: "string list option"

text \<open>
  Modelled from the spec: the header must be exactly \<^verbatim>\<open>Bearer <token>\<close>; a request
  without the header fails with \<open>missing_header\<close>.
\<close>

definition get_token_auth_header :: "string option \<Rightarrow> auth_failure + string" where
  "get_token_auth_header h =
     (case h of
        None \<Rightarrow> Inl missing_header
      | Some v \<Rightarrow>
          if starts_with ''Bearer '' v \<and> drop 7 v \<noteq> [] \<and> CHR '' '' \<notin> set (drop 7 v)
          then Inr (drop 7 v)
          else Inl invalid_header)"

text \<open>Modelled from the spec: the Permission Checker.\<close>

definition check_permissions :: "string \<Rightarrow> claims \<Rightarrow> auth_failure + claims" where
  "check_permissions permission payload =
     (case permissions payload of
        None \<Rightarrow> Inl permissions_missing
      | Some ps \<Rightarrow> if permission \<in> set ps then Inr payload else Inl unauthorized)"

section \<open>Requests, responses and exceptions\<close>

record request =
  authorization :: "string option"
  get_json :: json

text \<open>
  The content of a response is what \<^verbatim>\<open>jsonify\<close> made of a dictionary, or the page the framework
  renders by itself for an error no handler of the application is registered for.
\<close>

datatype content = Json json | DefaultPage

record response =
  status :: nat
  content :: content

datatype exn =
    HTTPException nat
  | AuthErr AuthError
  | PyError py_error

type_synonym 'a result = "(exn + 'a) \<times> store"

definition jsonify :: "(string \<times> json) list \<Rightarrow> nat \<Rightarrow> response" where
  "jsonify d code = \<lparr>status = code, content = Json (JObj d)\<rparr>"

text \<open>
  Modelled from the spec: the decorator \<^verbatim>\<open>requires_auth(permission)\<close>. The Token
  Verifier runs first, then the Permission Checker; only then the handler is called,
  with the decoded claims. The cryptographic verification of a token is the
  parameter \<open>verify_decode_jwt\<close>.
\<close>

definition requires_auth ::
  "(string \<Rightarrow> verify_failure + claims) \<Rightarrow> string \<Rightarrow> (claims \<Rightarrow> request \<Rightarrow> store \<Rightarrow> 'a result)
   \<Rightarrow> request \<Rightarrow> store \<Rightarrow> 'a result" where
  "requires_auth verify_decode_jwt permission f req s =
     (case get_token_auth_header (authorization req) of
        Inl e \<Rightarrow> (Inl (AuthErr (raise_AuthError e)), s)
      | Inr token \<Rightarrow>
          (case verify_decode_jwt token of
             Inl e \<Rightarrow> (Inl (AuthErr (raise_AuthError (verification e))), s)
           | Inr payload \<Rightarrow>
               (case check_permissions permission payload of
                  Inl e \<Rightarrow> (Inl (AuthErr (raise_AuthError e)), s)
                | Inr p \<Rightarrow> f p req s)))"

section \<open>The routes of \<^verbatim>\<open>api.py\<close>\<close>

text \<open>\<^verbatim>\<open>GET /drinks\<close>: public; the short form of every drink.\<close>

definition get_drinks :: "store \<Rightarrow> response result" where
  "get_drinks s =
     (case query_all s of
        (drinks, s') \<Rightarrow>
          (case comprehension short drinks of
             Inl e \<Rightarrow> (Inl (PyError e), s')
           | Inr drink \<Rightarrow>
               (Inr (jsonify [(''success'', JBool True), (''drinks'', JArr drink)] 200), s')))"

text \<open>\<^verbatim>\<open>GET /drinks-detail\<close>: the long form of every drink.\<close>

definition get_drinks_detail :: "claims \<Rightarrow> request \<Rightarrow> store \<Rightarrow> response result" where
  "get_drinks_detail payload req s =
     (case query_all s of
        (drinks, s') \<Rightarrow>
          (case comprehension long drinks of
             Inl e \<Rightarrow> (Inl (PyError e), s')
           | Inr drink \<Rightarrow>
               (Inr (jsonify [(''success'', JBool True), (''drinks'', JArr drink)] 200), s')))"

text \<open>
  The test of \<^verbatim>\<open>post_drinks\<close>, \<^verbatim>\<open>'title' and 'recipe' not in body\<close>: Python reads it as
  \<^verbatim>\<open>'title' and ('recipe' not in body)\<close>, and \<^verbatim>\<open>x and y\<close> is \<open>y\<close> when \<open>x\<close> is true.
\<close>

definition title_and_recipe_not_in :: "json \<Rightarrow> py_error + bool" where
  "title_and_recipe_not_in body =
     (if truthy (JStr ''title'') then
        (case contains body ''recipe'' of Inl e \<Rightarrow> Inl e | Inr b \<Rightarrow> Inr (\<not> b))
      else Inr False)"

text \<open>\<^verbatim>\<open>POST /drinks\<close>\<close>

definition post_drinks :: "bool \<Rightarrow> claims \<Rightarrow> request \<Rightarrow> store \<Rightarrow> response result" where
  "post_drinks commit_ok payload req s =
     (let body = get_json req in
      case title_and_recipe_not_in body of
        Inl e \<Rightarrow> (Inl (PyError e), s)
      | Inr True \<Rightarrow> (Inl (HTTPException 422), s)
      | Inr False \<Rightarrow>
          (case getitem body ''title'' of
             Inl e \<Rightarrow> (Inl (PyError e), s)
           | Inr title' \<Rightarrow>
               (case getitem body ''recipe'' of
                  Inl e \<Rightarrow> (Inl (PyError e), s)
                | Inr r \<Rightarrow>
                    (let recipe' = dumps r in
                     case insert_drink commit_ok title' recipe' s of
                       (Inl e, s') \<Rightarrow> (Inl (PyError e), s')
                     | (Inr drink, s') \<Rightarrow>
                         (case long drink of
                            Inl e \<Rightarrow> (Inl (PyError e), s')
                          | Inr l \<Rightarrow>
                              (Inr (jsonify [(''success'', JBool True), (''drinks'', JArr [l])] 200),
                               s'))))))"

text \<open>
  \<^verbatim>\<open>PATCH /drinks/<id>\<close>: the drink is looked up, then the body is read; a field is
  replaced when the body's value for it is true in Python's sense.
\<close>

definition patch_drinks :: "bool \<Rightarrow> nat \<Rightarrow> claims \<Rightarrow> request \<Rightarrow> store \<Rightarrow> response result" where
  "patch_drinks commit_ok i payload req s =
     (case one_or_none i s of
        (Inl e, s1) \<Rightarrow> (Inl (PyError e), s1)
      | (Inr found, s1) \<Rightarrow>
          (let body = get_json req in
           case found of
             None \<Rightarrow> (Inl (HTTPException 404), s1)
           | Some drink \<Rightarrow>
               (case get body ''title'' of
                  Inl e \<Rightarrow> (Inl (PyError e), s1)
                | Inr title' \<Rightarrow>
                    (case get body ''recipe'' of
                       Inl e \<Rightarrow> (Inl (PyError e), s1)
                     | Inr recipe' \<Rightarrow>
                         (let drink1 = (if truthy title' then drink\<lparr>title := title'\<rparr> else drink) in
                          case (if truthy recipe' then
                                  (case getitem body ''recipe'' of
                                     Inl e \<Rightarrow> Inl e
                                   | Inr r \<Rightarrow> Inr (drink1\<lparr>recipe := dumps r\<rparr>))
                                else Inr drink1) of
                            Inl e \<Rightarrow> (Inl (PyError e), s1)
                          | Inr drink2 \<Rightarrow>
                              (case update_drink commit_ok drink2 s1 of
                                 (Inl e, s2) \<Rightarrow> (Inl (PyError e), s2)
                               | (Inr u, s2) \<Rightarrow>
                                   (case long drink2 of
                                      Inl e \<Rightarrow> (Inl (PyError e), s2)
                                    | Inr l \<Rightarrow>
                                        (Inr (jsonify [(''success'', JBool True),
                                                       (''drinks'', JArr [l])] 200),
                                         s2))))))))"

text \<open>\<^verbatim>\<open>DELETE /drinks/<id>\<close>\<close>

definition delete_drinks :: "bool \<Rightarrow> nat \<Rightarrow> claims \<Rightarrow> request \<Rightarrow> store \<Rightarrow> response result" where
  "delete_drinks commit_ok i payload req s =
     (case one_or_none i s of
        (Inl e, s1) \<Rightarrow> (Inl (PyError e), s1)
      | (Inr None, s1) \<Rightarrow> (Inl (HTTPException 404), s1)
      | (Inr (Some drink), s1) \<Rightarrow>
          (case delete_drink commit_ok drink s1 of
             (Inl e, s2) \<Rightarrow> (Inl (PyError e), s2)
           | (Inr u, s2) \<Rightarrow>
               (Inr (jsonify [(''success'', JBool True), (''deleted'', JInt (int i))] 200), s2)))"

section \<open>Error handling\<close>

text \<open>
  The three handlers registered with \<^verbatim>\<open>@app.errorhandler\<close>. The source names the
  handlers of 422 and of 404 both \<^verbatim>\<open>unprocessable\<close>; each is registered when it is
  defined, so both are in force.
\<close>

definition unprocessable :: response where
  "unprocessable =
     jsonify [(''success'', JBool False), (''error'', JInt 422), (''message'', JStr ''unprocessable'')]
       422"

definition unprocessable_404 :: response where
  "unprocessable_404 =
     jsonify [(''success'', JBool False), (''error'', JInt 404),
              (''message'', JStr ''resource not found'')] 404"

definition auth_error :: "AuthError \<Rightarrow> py_error + response" where
  "auth_error e =
     (case map_of (error e) ''description'' of
        None \<Rightarrow> Inl KeyError
      | Some description \<Rightarrow>
          Inr (jsonify [(''success'', JBool False), (''error'', JInt (int (status_code e))),
                        (''message'', JStr description)] (status_code e)))"

text \<open>
  What the framework does with an exception that leaves a handler: the registered
  error handler answers, and where there is none (an unhandled Python exception, an
  aborted status without a handler) the framework renders its own page.
\<close>

definition handle_exception :: "exn \<Rightarrow> response" where
  "handle_exception x =
     (case x of
        HTTPException code \<Rightarrow>
          if code = 422 then unprocessable
          else if code = 404 then unprocessable_404
          else \<lparr>status = code, content = DefaultPage\<rparr>
      | AuthErr e \<Rightarrow>
          (case auth_error e of
             Inl err \<Rightarrow> \<lparr>status = 500, content = DefaultPage\<rparr>
           | Inr r \<Rightarrow> r)
      | PyError err \<Rightarrow> \<lparr>status = 500, content = DefaultPage\<rparr>)"

text \<open>The five routes, with the permission each is decorated with.\<close>

datatype route =
    GET_drinks
  | GET_drinks_detail
  | POST_drinks
  | PATCH_drinks nat
  | DELETE_drinks nat

definition view :: "(string \<Rightarrow> verify_failure + claims) \<Rightarrow> bool \<Rightarrow> route \<Rightarrow> request \<Rightarrow> store
    \<Rightarrow> response result" where
  "view verify_decode_jwt commit_ok rt req s =
     (case rt of
        GET_drinks \<Rightarrow> get_drinks s
      | GET_drinks_detail \<Rightarrow>
          requires_auth verify_decode_jwt ''get:drinks-detail'' get_drinks_detail req s
      | POST_drinks \<Rightarrow>
          requires_auth verify_decode_jwt ''post:drinks'' (post_drinks commit_ok) req s
      | PATCH_drinks i \<Rightarrow>
          requires_auth verify_decode_jwt ''patch:drinks'' (patch_drinks commit_ok i) req s
      | DELETE_drinks i \<Rightarrow>
          requires_auth verify_decode_jwt ''delete:drinks'' (delete_drinks commit_ok i) req s)"

definition app :: "(string \<Rightarrow> verify_failure + claims) \<Rightarrow> bool \<Rightarrow> route \<Rightarrow> request \<Rightarrow> store
    \<Rightarrow> response \<times> store" where
  "app verify_decode_jwt commit_ok rt req s =
     (case view verify_decode_jwt commit_ok rt req s of
        (Inl x, s') \<Rightarrow> (handle_exception x, s')
      | (Inr r, s') \<Rightarrow> (r, s'))"

section \<open>Notions used in the statements and proofs\<close>

text \<open>
  A request passes the gate of a route when its header yields a token, the token
  verifies, and the claims carry the route's permission.
\<close>

definition authorized :: "(string \<Rightarrow> verify_failure + claims) \<Rightarrow> string \<Rightarrow> request \<Rightarrow> bool" where
  "authorized verify_decode_jwt permission req =
     (case get_token_auth_header (authorization req) of
        Inl e \<Rightarrow> False
      | Inr token \<Rightarrow>
          (case verify_decode_jwt token of
             Inl e \<Rightarrow> False
           | Inr payload \<Rightarrow>
               (case permissions payload of
                  None \<Rightarrow> False
                | Some ps \<Rightarrow> permission \<in> set ps)))"

text \<open>
  A request is unauthenticated when it has no usable \<^verbatim>\<open>Authorization\<close> header or its
  token fails verification.
\<close>

definition unauthenticated :: "(string \<Rightarrow> verify_failure + claims) \<Rightarrow> request \<Rightarrow> bool" where
  "unauthenticated verify_decode_jwt req =
     (case get_token_auth_header (authorization req) of
        Inl e \<Rightarrow> True
      | Inr token \<Rightarrow> (case verify_decode_jwt token of Inl e \<Rightarrow> True | Inr payload \<Rightarrow> False))"

fun gated :: "route \<Rightarrow> bool" where
  "gated GET_drinks = False"
| "gated _ = True"

fun permission_of :: "route \<Rightarrow> string" where
  "permission_of GET_drinks = []"
| "permission_of GET_drinks_detail = ''get:drinks-detail''"
| "permission_of POST_drinks = ''post:drinks''"
| "permission_of (PATCH_drinks i) = ''patch:drinks''"
| "permission_of (DELETE_drinks i) = ''delete:drinks''"

text \<open>The error envelope: \<^verbatim>\<open>{success: false, error: <status>, message: <string>}\<close>.\<close>

definition is_error_envelope :: "response \<Rightarrow> bool" where
  "is_error_envelope r =
     (case content r of
        Json (JObj [(k1, JBool b), (k2, JInt code), (k3, JStr message)]) \<Rightarrow>
          k1 = ''success'' \<and> \<not> b \<and> k2 = ''error'' \<and> code = int (status r) \<and> k3 = ''message''
      | _ \<Rightarrow> False)"

text \<open>What is persisted: the table and the id counter, without the call counter.\<close>

definition persisted :: "store \<Rightarrow> drink list \<times> nat" where
  "persisted s = (rows s, next_id s)"

text \<open>
  A stored recipe round-trips when it parses and the parsed value serialises to the
  same text again; the data-model invariant asks it of every row.
\<close>

definition round_trips :: "string \<Rightarrow> bool" where
  "round_trips t = (case loads t of None \<Rightarrow> False | Some v \<Rightarrow> dumps v = t)"

definition recipes_round_trip :: "store \<Rightarrow> bool" where
  "recipes_round_trip s = list_all (\<lambda>d. round_trips (recipe d)) (rows s)"

text \<open>The body of a request without one of its keys.\<close>

definition without_key :: "string \<Rightarrow> request \<Rightarrow> request" where
  "without_key k req =
     (case get_json req of
        JObj kvs \<Rightarrow> req\<lparr>get_json := JObj (filter (\<lambda>kv. fst kv \<noteq> k) kvs)\<rparr>
      | _ \<Rightarrow> req)"




text \<open>The drink that \<^verbatim>\<open>patch_drinks\<close> writes back, from the stored one and the body's keys.\<close>

definition patched :: "(string \<times> json) list \<Rightarrow> drink \<Rightarrow> drink" where
  "patched kvs d =
     (let t = (case map_of kvs ''title'' of None \<Rightarrow> JNull | Some v \<Rightarrow> v);
          r = (case map_of kvs ''recipe'' of None \<Rightarrow> JNull | Some v \<Rightarrow> v);
          d1 = (if truthy t then d\<lparr>title := t\<rparr> else d)
      in if truthy r then d1\<lparr>recipe := dumps r\<rparr> else d1)"




section \<open>The serialiser and the parser are inverse\<close>





































section \<open>The gate of the protected routes\<close>

lemma requires_auth_authorized:
  assumes "authorized verify permission req"
  shows "\<exists>p. requires_auth verify permission f req s = f p req s"
  using assms
  by (auto simp: authorized_def requires_auth_def check_permissions_def
      split: sum.splits option.splits)

lemma raise_AuthError_handled:
  "handle_exception (AuthErr (raise_AuthError e)) =
     jsonify [(''success'', JBool False), (''error'', JInt (int (failure_status e))),
              (''message'', JStr (failure_name e))] (failure_status e)"
  by (simp add: handle_exception_def auth_error_def raise_AuthError_def)

lemma requires_auth_unauthenticated:
  assumes "unauthenticated verify req"
  shows "\<exists>e. failure_status e = 401
           \<and> requires_auth verify permission f req s = (Inl (AuthErr (raise_AuthError e)), s)"
proof (cases "get_token_auth_header (authorization req)")
  case (Inl e)
  then have "e = missing_header \<or> e = invalid_header"
    by (auto simp: get_token_auth_header_def split: option.splits if_splits)
  then have "failure_status e = 401" by auto
  with Inl show ?thesis by (auto simp: requires_auth_def)
next
  case (Inr token)
  with assms obtain e where "verify token = Inl e"
    by (auto simp: unauthenticated_def split: sum.splits)
  with Inr have "requires_auth verify permission f req s
      = (Inl (AuthErr (raise_AuthError (verification e))), s)"
    by (simp add: requires_auth_def)
  moreover have "failure_status (verification e) = 401" by simp
  ultimately show ?thesis by blast
qed

lemma view_gated:
  "gated rt \<Longrightarrow> \<exists>f. view verify ok rt req s = requires_auth verify (permission_of rt) f req s"
  by (cases rt) (auto simp: view_def)

text \<open>
  Claim C2. A request to a gated route (\<^verbatim>\<open>GET /drinks-detail\<close>, \<^verbatim>\<open>POST /drinks\<close>,
  \<^verbatim>\<open>PATCH /drinks/<id>\<close>, \<^verbatim>\<open>DELETE /drinks/<id>\<close>) whose \<^verbatim>\<open>Authorization\<close> header is missing
  or malformed, or whose token fails verification, is answered with 401 in the error
  envelope, and no store operation is invoked: the store, with its call counter, is
  what it was.
\<close>

theorem gated_route_rejects_unauthenticated:
  assumes "gated rt" and "unauthenticated verify_decode_jwt req"
  shows "status (fst (app verify_decode_jwt commit_ok rt req s)) = 401
       \<and> is_error_envelope (fst (app verify_decode_jwt commit_ok rt req s))
       \<and> snd (app verify_decode_jwt commit_ok rt req s) = s
       \<and> calls (snd (app verify_decode_jwt commit_ok rt req s)) = calls s"
proof -
  obtain f where "view verify_decode_jwt commit_ok rt req s
      = requires_auth verify_decode_jwt (permission_of rt) f req s"
    using view_gated [OF assms(1)] by blast
  moreover obtain e where "failure_status e = 401"
    "requires_auth verify_decode_jwt (permission_of rt) f req s
       = (Inl (AuthErr (raise_AuthError e)), s)"
    using requires_auth_unauthenticated [OF assms(2)] by blast
  ultimately show ?thesis
    by (simp add: app_def raise_AuthError_handled jsonify_def is_error_envelope_def)
qed

text \<open>The gate at a request without the header, on \<^verbatim>\<open>POST /drinks\<close> and a fresh store.\<close>

theorem gated_route_rejects_unauthenticated_witness:
  "gated POST_drinks
   \<and> unauthenticated (\<lambda>t. Inl invalid_token) \<lparr>authorization = None, get_json = JNull\<rparr>
   \<and> status (fst (app (\<lambda>t. Inl invalid_token) True POST_drinks
        \<lparr>authorization = None, get_json = JNull\<rparr> \<lparr>rows = [], next_id = 1, calls = 0\<rparr>)) = 401
   \<and> calls (snd (app (\<lambda>t. Inl invalid_token) True POST_drinks
        \<lparr>authorization = None, get_json = JNull\<rparr> \<lparr>rows = [], next_id = 1, calls = 0\<rparr>)) = 0"
proof -
  have g: "gated POST_drinks" by simp
  have u: "unauthenticated (\<lambda>t. Inl invalid_token) \<lparr>authorization = None, get_json = JNull\<rparr>"
    by (simp add: unauthenticated_def get_token_auth_header_def)
  show ?thesis
    using g u gated_route_rejects_unauthenticated [OF g u, of True
        "\<lparr>rows = [], next_id = 1, calls = 0\<rparr>"]
    by simp
qed

section \<open>The handlers on an authorised request\<close>

lemma view_PATCH_authorized:
  assumes "authorized verify ''patch:drinks'' req"
  shows "view verify ok (PATCH_drinks i) req s = patch_drinks ok i p req s"
proof -
  obtain q where "requires_auth verify ''patch:drinks'' (patch_drinks ok i) req s
      = patch_drinks ok i q req s"
    using requires_auth_authorized [OF assms] by blast
  then show ?thesis by (simp add: view_def patch_drinks_def)
qed

lemma view_DELETE_authorized:
  assumes "authorized verify ''delete:drinks'' req"
  shows "view verify ok (DELETE_drinks i) req s = delete_drinks ok i p req s"
proof -
  obtain q where "requires_auth verify ''delete:drinks'' (delete_drinks ok i) req s
      = delete_drinks ok i q req s"
    using requires_auth_authorized [OF assms] by blast
  then show ?thesis by (simp add: view_def delete_drinks_def)
qed

lemma view_POST_authorized:
  assumes "authorized verify ''post:drinks'' req"
  shows "view verify ok POST_drinks req s = post_drinks ok p req s"
proof -
  obtain q where "requires_auth verify ''post:drinks'' (post_drinks ok) req s
      = post_drinks ok q req s"
    using requires_auth_authorized [OF assms] by blast
  then show ?thesis by (simp add: view_def post_drinks_def)
qed

text \<open>
  Claim C1, at the input where the code departs from it. An authorised
  \<^verbatim>\<open>POST /drinks\<close> whose body has a recipe and no title passes the test
  \<^verbatim>\<open>'title' and 'recipe' not in body\<close>, fails at \<^verbatim>\<open>body['title']\<close> with a \<^verbatim>\<open>KeyError\<close>, and
  is answered with the framework's 500 page instead of 422; no row is created.
\<close>

theorem post_drinks_title_absent_is_500:
  "app (\<lambda>t. Inr \<lparr>permissions = Some [''post:drinks'']\<rparr>) True POST_drinks
     \<lparr>authorization = Some ''Bearer t'',
      get_json = JObj [(''recipe'', JArr [JObj [(''name'', JStr ''water''),
                        (''color'', JStr ''blue''), (''parts'', JInt 1)]])]\<rparr>
     \<lparr>rows = [], next_id = 1, calls = 0\<rparr>
   = (\<lparr>status = 500, content = DefaultPage\<rparr>, \<lparr>rows = [], next_id = 1, calls = 0\<rparr>)"
  by (simp add: app_def view_def requires_auth_def get_token_auth_header_def
      check_permissions_def post_drinks_def title_and_recipe_not_in_def handle_exception_def)

text \<open>
  The half of the test that works: a body without the recipe is refused with 422
  before the store is touched.
\<close>

lemma post_drinks_recipe_absent:
  assumes "get_json req = JObj kvs" and "''recipe'' \<notin> fst ` set kvs"
  shows "post_drinks ok p req s = (Inl (HTTPException 422), s)"
  using assms by (simp add: post_drinks_def title_and_recipe_not_in_def)

lemma one_or_none_found:
  "filter (\<lambda>d. drink_id d = i) (rows s) = [d] \<Longrightarrow> one_or_none i s = (Inr (Some d), called s)"
  by (simp add: one_or_none_def)

lemma one_or_none_absent:
  "i \<notin> drink_id ` set (rows s) \<Longrightarrow> one_or_none i s = (Inr None, called s)"
proof -
  assume "i \<notin> drink_id ` set (rows s)"
  then have "filter (\<lambda>d. drink_id d = i) (rows s) = []" by (auto simp: filter_empty_conv)
  then show ?thesis by (simp add: one_or_none_def)
qed

lemma only_row:
  assumes "filter (\<lambda>d. drink_id d = i) (rows s) = [d]"
  shows "drink_id d = i" and "d \<in> set (rows s)"
    and "\<And>r. r \<in> set (rows s) \<Longrightarrow> drink_id r = i \<Longrightarrow> r = d"
proof -
  have mem: "set (filter (\<lambda>d. drink_id d = i) (rows s)) = {d}"
    by (simp only: assms list.set)
  then have "d \<in> set (filter (\<lambda>d. drink_id d = i) (rows s))" by simp
  then show "drink_id d = i" and "d \<in> set (rows s)" by simp_all
  fix r
  assume "r \<in> set (rows s)" and "drink_id r = i"
  then have "r \<in> set (filter (\<lambda>d. drink_id d = i) (rows s))" by simp
  then show "r = d" by (simp only: mem singleton_iff)
qed

lemma rows_called [simp]: "rows (called s) = rows s"
  by (simp add: called_def)

lemma next_id_called [simp]: "next_id (called s) = next_id s"
  by (simp add: called_def)

lemma persisted_called [simp]: "persisted (called s) = persisted s"
  by (simp add: persisted_def)

lemma patch_drinks_found:
  assumes "filter (\<lambda>d. drink_id d = i) (rows s) = [d]" and "get_json req = JObj kvs"
  shows "patch_drinks ok i p req s =
     (case update_drink ok (patched kvs d) (called s) of
        (Inl e, s2) \<Rightarrow> (Inl (PyError e), s2)
      | (Inr u, s2) \<Rightarrow>
          (case long (patched kvs d) of
             Inl e \<Rightarrow> (Inl (PyError e), s2)
           | Inr l \<Rightarrow>
               (Inr (jsonify [(''success'', JBool True), (''drinks'', JArr [l])] 200), s2)))"
proof -
  have one: "one_or_none i s = (Inr (Some d), called s)"
    by (rule one_or_none_found [OF assms(1)])
  show ?thesis
  proof (cases "map_of kvs ''title''")
    case None
    show ?thesis
      by (cases "map_of kvs ''recipe''")
        (simp_all add: patch_drinks_def patched_def one assms(2) None Let_def
          cong: sum.case_cong prod.case_cong)
  next
    case (Some t)
    show ?thesis
      by (cases "map_of kvs ''recipe''")
        (simp_all add: patch_drinks_def patched_def one assms(2) Some Let_def
          cong: sum.case_cong prod.case_cong)
  qed
qed

lemma drink_id_patched [simp]: "drink_id (patched kvs d) = drink_id d"
  by (simp add: patched_def Let_def)

lemma replace_only_row:
  assumes "filter (\<lambda>d. drink_id d = i) (rows s) = [d]"
  shows "map (\<lambda>r. if drink_id r = drink_id d then g d else r) (rows s)
       = map (\<lambda>r. if drink_id r = i then g r else r) (rows s)"
proof (rule map_cong [OF refl])
  fix r
  assume r: "r \<in> set (rows s)"
  show "(if drink_id r = drink_id d then g d else r) = (if drink_id r = i then g r else r)"
  proof (cases "drink_id r = i")
    case True
    then have "r = d" using only_row(3) [OF assms r] by simp
    then show ?thesis using True by simp
  next
    case False
    then show ?thesis using only_row(1) [OF assms] by simp
  qed
qed

lemma patch_drinks_store:
  assumes "filter (\<lambda>d. drink_id d = i) (rows s) = [d]" and "get_json req = JObj kvs"
  shows "rows (snd (patch_drinks True i p req s))
           = map (\<lambda>r. if drink_id r = i then patched kvs r else r) (rows s)"
    and "next_id (snd (patch_drinks True i p req s)) = next_id s"
proof -
  let ?s2 = "called ((called s)\<lparr>rows :=
      map (\<lambda>r. if drink_id r = drink_id (patched kvs d) then patched kvs d else r)
        (rows (called s))\<rparr>)"
  have "snd (patch_drinks True i p req s) = ?s2"
    by (cases "long (patched kvs d)")
      (simp_all add: patch_drinks_found [OF assms] update_drink_def)
  then show "rows (snd (patch_drinks True i p req s))
           = map (\<lambda>r. if drink_id r = i then patched kvs r else r) (rows s)"
    and "next_id (snd (patch_drinks True i p req s)) = next_id s"
    using replace_only_row [OF assms(1), of "patched kvs"] by simp_all
qed


lemma snd_app: "snd (app verify ok rt req s) = snd (view verify ok rt req s)"
  by (simp add: app_def split: prod.splits sum.splits)


text \<open>
  Claim C3. For an existing drink id, an authorised \<^verbatim>\<open>PATCH /drinks/<id>\<close> whose body
  supplies a title that is true in Python's sense and no recipe changes that drink's
  title only: its id and recipe, every other drink and the id counter are as before.
\<close>

theorem patch_title_only_changes_title:
  assumes "authorized verify_decode_jwt ''patch:drinks'' req"
    and "filter (\<lambda>d. drink_id d = i) (rows s) = [d]"
    and "get_json req = JObj kvs" and "map_of kvs ''title'' = Some t" and "truthy t"
    and "map_of kvs ''recipe'' = None"
  shows "rows (snd (app verify_decode_jwt True (PATCH_drinks i) req s))
           = map (\<lambda>r. if drink_id r = i then r\<lparr>title := t\<rparr> else r) (rows s)
       \<and> next_id (snd (app verify_decode_jwt True (PATCH_drinks i) req s)) = next_id s"
proof -
  have "patched kvs = (\<lambda>r. r\<lparr>title := t\<rparr>)"
    using assms(4,5,6) by (simp add: patched_def fun_eq_iff)
  moreover have "snd (app verify_decode_jwt True (PATCH_drinks i) req s)
      = snd (patch_drinks True i \<lparr>permissions = None\<rparr> req s)"
    using view_PATCH_authorized [OF assms(1), where p = "\<lparr>permissions = None\<rparr>"]
    by (simp add: snd_app)
  ultimately show ?thesis
    using patch_drinks_store [OF assms(2,3), of "\<lparr>permissions = None\<rparr>"] by simp
qed

text \<open>
  A store of two drinks, the first one renamed.
\<close>

theorem patch_title_only_changes_title_witness:
  "authorized (\<lambda>t. Inr \<lparr>permissions = Some [''patch:drinks'']\<rparr>) ''patch:drinks''
     \<lparr>authorization = Some ''Bearer t'', get_json = JObj [(''title'', JStr ''New'')]\<rparr>
   \<and> rows (snd (app (\<lambda>t. Inr \<lparr>permissions = Some [''patch:drinks'']\<rparr>) True (PATCH_drinks 1)
        \<lparr>authorization = Some ''Bearer t'', get_json = JObj [(''title'', JStr ''New'')]\<rparr>
        \<lparr>rows = [\<lparr>drink_id = 1, title = JStr ''Old'', recipe = ''[]''\<rparr>,
                 \<lparr>drink_id = 2, title = JStr ''Tea'', recipe = ''[]''\<rparr>],
         next_id = 3, calls = 0\<rparr>))
     = [\<lparr>drink_id = 1, title = JStr ''New'', recipe = ''[]''\<rparr>,
        \<lparr>drink_id = 2, title = JStr ''Tea'', recipe = ''[]''\<rparr>]"
proof -
  let ?verify = "\<lambda>t :: string. (Inr \<lparr>permissions = Some [''patch:drinks'']\<rparr> :: verify_failure + claims)"
  let ?req = "\<lparr>authorization = Some ''Bearer t'', get_json = JObj [(''title'', JStr ''New'')]\<rparr>"
  let ?s = "\<lparr>rows = [\<lparr>drink_id = 1, title = JStr ''Old'', recipe = ''[]''\<rparr>,
                 \<lparr>drink_id = 2, title = JStr ''Tea'', recipe = ''[]''\<rparr>],
         next_id = 3, calls = 0\<rparr>"
  have a: "authorized ?verify ''patch:drinks'' ?req"
    by (simp add: authorized_def get_token_auth_header_def)
  have f: "filter (\<lambda>d. drink_id d = 1) (rows ?s) = [\<lparr>drink_id = 1, title = JStr ''Old'', recipe = ''[]''\<rparr>]"
    by simp
  show ?thesis
    using a patch_title_only_changes_title [OF a f, of "[(''title'', JStr ''New'')]" "JStr ''New''"]
    by simp
qed





lemma delete_drinks_found:
  assumes "filter (\<lambda>d. drink_id d = i) (rows s) = [d]"
  shows "delete_drinks True i p req s
     = (Inr (jsonify [(''success'', JBool True), (''deleted'', JInt (int i))] 200),
        called ((called s)\<lparr>rows := filter (\<lambda>r. drink_id r \<noteq> i) (rows s)\<rparr>))"
  using only_row(1) [OF assms]
  by (simp add: delete_drinks_def one_or_none_found [OF assms] delete_drink_def)

lemma delete_drinks_absent:
  assumes "i \<notin> drink_id ` set (rows s)"
  shows "delete_drinks ok i p req s = (Inl (HTTPException 404), called s)"
  by (simp add: delete_drinks_def one_or_none_absent [OF assms])

text \<open>
  Claim C6. For an existing drink id, an authorised \<^verbatim>\<open>DELETE /drinks/<id>\<close> answers 200
  with \<^verbatim>\<open>{success: true, deleted: id}\<close> for the requested id, the id is gone from the
  table and from what \<open>list_all\<close> returns afterwards, and a second \<^verbatim>\<open>DELETE\<close> of the same
  id is answered with the 404 envelope.
\<close>

theorem delete_existing_then_not_found:
  assumes "authorized verify_decode_jwt ''delete:drinks'' req"
    and "filter (\<lambda>d. drink_id d = i) (rows s) = [d]"
  shows "fst (app verify_decode_jwt True (DELETE_drinks i) req s)
           = jsonify [(''success'', JBool True), (''deleted'', JInt (int i))] 200
       \<and> rows (snd (app verify_decode_jwt True (DELETE_drinks i) req s))
           = filter (\<lambda>r. drink_id r \<noteq> i) (rows s)
       \<and> i \<notin> drink_id ` set (fst (query_all (snd (app verify_decode_jwt True (DELETE_drinks i) req s))))
       \<and> fst (app verify_decode_jwt True (DELETE_drinks i) req
                (snd (app verify_decode_jwt True (DELETE_drinks i) req s))) = unprocessable_404
       \<and> status unprocessable_404 = 404"
proof -
  let ?p = "\<lparr>permissions = None\<rparr>"
  let ?s1 = "called ((called s)\<lparr>rows := filter (\<lambda>r. drink_id r \<noteq> i) (rows s)\<rparr>)"
  have first: "app verify_decode_jwt True (DELETE_drinks i) req s
      = (jsonify [(''success'', JBool True), (''deleted'', JInt (int i))] 200, ?s1)"
    using view_DELETE_authorized [OF assms(1), where p = ?p]
    by (simp add: app_def delete_drinks_found [OF assms(2)])
  have gone: "i \<notin> drink_id ` set (rows ?s1)" by auto
  have second: "app verify_decode_jwt True (DELETE_drinks i) req ?s1
      = (unprocessable_404, called ?s1)"
    using view_DELETE_authorized [OF assms(1), where p = ?p]
    by (simp add: app_def delete_drinks_absent [OF gone] handle_exception_def)
  have "i \<notin> drink_id ` set (fst (query_all ?s1))"
    using gone by (simp add: query_all_def)
  then show ?thesis
    using first second by (simp add: unprocessable_404_def jsonify_def)
qed

text \<open>
  The second of two drinks deleted.
\<close>

theorem delete_existing_then_not_found_witness:
  "fst (app (\<lambda>t. Inr \<lparr>permissions = Some [''delete:drinks'']\<rparr>) True (DELETE_drinks 2)
        \<lparr>authorization = Some ''Bearer t'', get_json = JNull\<rparr>
        \<lparr>rows = [\<lparr>drink_id = 1, title = JStr ''Old'', recipe = ''[]''\<rparr>,
                 \<lparr>drink_id = 2, title = JStr ''Tea'', recipe = ''[]''\<rparr>],
         next_id = 3, calls = 0\<rparr>)
     = jsonify [(''success'', JBool True), (''deleted'', JInt 2)] 200
   \<and> rows (snd (app (\<lambda>t. Inr \<lparr>permissions = Some [''delete:drinks'']\<rparr>) True (DELETE_drinks 2)
        \<lparr>authorization = Some ''Bearer t'', get_json = JNull\<rparr>
        \<lparr>rows = [\<lparr>drink_id = 1, title = JStr ''Old'', recipe = ''[]''\<rparr>,
                 \<lparr>drink_id = 2, title = JStr ''Tea'', recipe = ''[]''\<rparr>],
         next_id = 3, calls = 0\<rparr>))
     = [\<lparr>drink_id = 1, title = JStr ''Old'', recipe = ''[]''\<rparr>]"
proof -
  let ?verify = "\<lambda>t :: string. (Inr \<lparr>permissions = Some [''delete:drinks'']\<rparr> :: verify_failure + claims)"
  let ?req = "\<lparr>authorization = Some ''Bearer t'', get_json = JNull\<rparr>"
  let ?s = "\<lparr>rows = [\<lparr>drink_id = 1, title = JStr ''Old'', recipe = ''[]''\<rparr>,
                 \<lparr>drink_id = 2, title = JStr ''Tea'', recipe = ''[]''\<rparr>],
         next_id = 3, calls = 0\<rparr>"
  have a: "authorized ?verify ''delete:drinks'' ?req"
    by (simp add: authorized_def get_token_auth_header_def)
  have f: "filter (\<lambda>d. drink_id d = 2) (rows ?s) = [\<lparr>drink_id = 2, title = JStr ''Tea'', recipe = ''[]''\<rparr>]"
    by simp
  show ?thesis
    using delete_existing_then_not_found [OF a f] by simp
qed

lemma map_of_filter_key:
  "map_of (filter (\<lambda>kv. fst kv \<noteq> k) kvs) k' = (if k' = k then None else map_of kvs k')"
  by (induction kvs) auto

lemma patched_without_key:
  assumes "k = ''title'' \<or> k = ''recipe''" and "map_of kvs k = Some v" and "\<not> truthy v"
  shows "patched (filter (\<lambda>kv. fst kv \<noteq> k) kvs) d = patched kvs d"
  using assms by (auto simp: patched_def map_of_filter_key)

lemma patched_keeps_field:
  assumes "map_of kvs k = Some v" and "\<not> truthy v"
  shows "k = ''title'' \<Longrightarrow> title (patched kvs d) = title d"
    and "k = ''recipe'' \<Longrightarrow> recipe (patched kvs d) = recipe d"
  using assms by (auto simp: patched_def Let_def split: option.splits)

lemma patch_drinks_object:
  assumes "get_json req = JObj kvs"
  shows "patch_drinks ok i p req s =
     (case one_or_none i s of
        (Inl e, s1) \<Rightarrow> (Inl (PyError e), s1)
      | (Inr None, s1) \<Rightarrow> (Inl (HTTPException 404), s1)
      | (Inr (Some d), s1) \<Rightarrow>
          (case update_drink ok (patched kvs d) s1 of
             (Inl e, s2) \<Rightarrow> (Inl (PyError e), s2)
           | (Inr u, s2) \<Rightarrow>
               (case long (patched kvs d) of
                  Inl e \<Rightarrow> (Inl (PyError e), s2)
                | Inr l \<Rightarrow>
                    (Inr (jsonify [(''success'', JBool True), (''drinks'', JArr [l])] 200), s2))))"
proof -
  obtain r s1 where one: "one_or_none i s = (r, s1)" by (cases "one_or_none i s")
  show ?thesis
  proof (cases r)
    case (Inl e)
    with one show ?thesis by (simp add: patch_drinks_def)
  next
    case (Inr found)
    show ?thesis
    proof (cases found)
      case None
      with one Inr show ?thesis by (simp add: patch_drinks_def)
    next
      case (Some d)
      show ?thesis
        by (cases "map_of kvs ''title''"; cases "map_of kvs ''recipe''")
          (simp_all add: patch_drinks_def patched_def one Inr Some assms Let_def
            cong: sum.case_cong prod.case_cong)
    qed
  qed
qed

lemma patch_drinks_without_key:
  assumes "get_json req = JObj kvs" and "k = ''title'' \<or> k = ''recipe''"
    and "map_of kvs k = Some v" and "\<not> truthy v"
  shows "patch_drinks ok i p (without_key k req) s = patch_drinks ok i p req s"
proof -
  have "get_json (without_key k req) = JObj (filter (\<lambda>kv. fst kv \<noteq> k) kvs)"
    using assms(1) by (simp add: without_key_def)
  then have "patch_drinks ok i p (without_key k req) s =
     (case one_or_none i s of
        (Inl e, s1) \<Rightarrow> (Inl (PyError e), s1)
      | (Inr None, s1) \<Rightarrow> (Inl (HTTPException 404), s1)
      | (Inr (Some d), s1) \<Rightarrow>
          (case update_drink ok (patched (filter (\<lambda>kv. fst kv \<noteq> k) kvs) d) s1 of
             (Inl e, s2) \<Rightarrow> (Inl (PyError e), s2)
           | (Inr u, s2) \<Rightarrow>
               (case long (patched (filter (\<lambda>kv. fst kv \<noteq> k) kvs) d) of
                  Inl e \<Rightarrow> (Inl (PyError e), s2)
                | Inr l \<Rightarrow>
                    (Inr (jsonify [(''success'', JBool True), (''drinks'', JArr [l])] 200), s2))))"
    by (rule patch_drinks_object)
  then show ?thesis
    unfolding patch_drinks_object [OF assms(1)] patched_without_key [OF assms(2,3,4)] .
qed

lemma requires_auth_cong:
  assumes "authorization req' = authorization req" and "\<And>p. f p req' s = f p req s"
  shows "requires_auth verify permission f req' s = requires_auth verify permission f req s"
  using assms by (simp add: requires_auth_def split: sum.splits)

lemma requires_auth_cases:
  "(\<exists>e. requires_auth verify permission f req s = (Inl (AuthErr (raise_AuthError e)), s))
   \<or> (\<exists>p. requires_auth verify permission f req s = f p req s)"
  by (auto simp: requires_auth_def split: sum.splits)

lemma patch_drinks_rows_cases:
  assumes "filter (\<lambda>d. drink_id d = i) (rows s) = [d]" and "get_json req = JObj kvs"
  shows "rows (snd (patch_drinks ok i p req s)) = rows s
       \<or> rows (snd (patch_drinks ok i p req s))
           = map (\<lambda>r. if drink_id r = i then patched kvs r else r) (rows s)"
proof (cases ok)
  case True
  then show ?thesis using patch_drinks_store(1) [OF assms, of p] by simp
next
  case False
  then have "patch_drinks ok i p req s = (Inl (PyError StorageError), called (called s))"
    by (simp add: patch_drinks_found [OF assms] update_drink_def)
  then show ?thesis by simp
qed

text \<open>
  Claim C7. For an existing drink id, a \<^verbatim>\<open>PATCH /drinks/<id>\<close> whose body gives a title or
  a recipe that is false in Python's sense (an empty string, an empty list, ...) is
  answered exactly as the same request without that key, and the field of the drink
  is left at its prior value.
\<close>

theorem patch_falsy_value_as_absent:
  assumes "filter (\<lambda>d. drink_id d = i) (rows s) = [d]"
    and "get_json req = JObj kvs" and "k = ''title'' \<or> k = ''recipe''"
    and "map_of kvs k = Some v" and "\<not> truthy v"
  shows "app verify_decode_jwt commit_ok (PATCH_drinks i) req s
           = app verify_decode_jwt commit_ok (PATCH_drinks i) (without_key k req) s
       \<and> (\<forall>r \<in> set (rows (snd (app verify_decode_jwt commit_ok (PATCH_drinks i) req s))).
             drink_id r = i \<longrightarrow>
             (if k = ''title'' then title r = title d else recipe r = recipe d))"
proof -
  let ?f = "patch_drinks commit_ok i"
  have auth: "authorization (without_key k req) = authorization req"
    using assms(2) by (simp add: without_key_def)
  have "view verify_decode_jwt commit_ok (PATCH_drinks i) (without_key k req) s
      = view verify_decode_jwt commit_ok (PATCH_drinks i) req s"
    using requires_auth_cong [OF auth, of ?f s verify_decode_jwt "''patch:drinks''"]
      patch_drinks_without_key [OF assms(2,3,4,5)]
    by (simp add: view_def)
  then have same: "app verify_decode_jwt commit_ok (PATCH_drinks i) req s
           = app verify_decode_jwt commit_ok (PATCH_drinks i) (without_key k req) s"
    by (simp add: app_def)
  have kept: "if k = ''title'' then title (patched kvs d) = title d
              else recipe (patched kvs d) = recipe d"
    using patched_keeps_field [OF assms(4,5), of d] assms(3) by auto
  have rows_cases: "rows (snd (app verify_decode_jwt commit_ok (PATCH_drinks i) req s)) = rows s
       \<or> rows (snd (app verify_decode_jwt commit_ok (PATCH_drinks i) req s))
           = map (\<lambda>r. if drink_id r = i then patched kvs r else r) (rows s)"
  proof -
    consider (fail) e where "requires_auth verify_decode_jwt ''patch:drinks'' ?f req s
          = (Inl (AuthErr (raise_AuthError e)), s)"
      | (pass) p where "requires_auth verify_decode_jwt ''patch:drinks'' ?f req s = ?f p req s"
      using requires_auth_cases [of verify_decode_jwt "''patch:drinks''" ?f req s] by blast
    then show ?thesis
    proof cases
      case fail
      then show ?thesis by (simp add: snd_app view_def)
    next
      case pass
      then show ?thesis
        using patch_drinks_rows_cases [OF assms(1,2), of commit_ok p]
        by (simp add: snd_app view_def)
    qed
  qed
  have "\<forall>r \<in> set (rows (snd (app verify_decode_jwt commit_ok (PATCH_drinks i) req s))).
             drink_id r = i \<longrightarrow>
             (if k = ''title'' then title r = title d else recipe r = recipe d)"
  proof (intro ballI impI)
    fix r
    assume r: "r \<in> set (rows (snd (app verify_decode_jwt commit_ok (PATCH_drinks i) req s)))"
      and id: "drink_id r = i"
    from rows_cases show "if k = ''title'' then title r = title d else recipe r = recipe d"
    proof
      assume "rows (snd (app verify_decode_jwt commit_ok (PATCH_drinks i) req s)) = rows s"
      with r id have "r = d" using only_row(3) [OF assms(1)] by simp
      then show ?thesis by simp
    next
      assume "rows (snd (app verify_decode_jwt commit_ok (PATCH_drinks i) req s))
           = map (\<lambda>r. if drink_id r = i then patched kvs r else r) (rows s)"
      with r obtain r0 where r0: "r0 \<in> set (rows s)"
        "r = (if drink_id r0 = i then patched kvs r0 else r0)" by auto
      with id have "drink_id r0 = i" by (simp split: if_splits)
      with r0 have "r = patched kvs d" using only_row(3) [OF assms(1)] by simp
      with kept show ?thesis by simp
    qed
  qed
  with same show ?thesis by simp
qed

text \<open>
  An empty recipe list sent along with a new title.
\<close>

theorem patch_falsy_value_as_absent_witness:
  "app (\<lambda>t. Inr \<lparr>permissions = Some [''patch:drinks'']\<rparr>) True (PATCH_drinks 1)
        \<lparr>authorization = Some ''Bearer t'',
         get_json = JObj [(''title'', JStr ''New''), (''recipe'', JArr [])]\<rparr>
        \<lparr>rows = [\<lparr>drink_id = 1, title = JStr ''Old'', recipe = ''[]''\<rparr>], next_id = 2, calls = 0\<rparr>
   = app (\<lambda>t. Inr \<lparr>permissions = Some [''patch:drinks'']\<rparr>) True (PATCH_drinks 1)
        \<lparr>authorization = Some ''Bearer t'', get_json = JObj [(''title'', JStr ''New'')]\<rparr>
        \<lparr>rows = [\<lparr>drink_id = 1, title = JStr ''Old'', recipe = ''[]''\<rparr>], next_id = 2, calls = 0\<rparr>"
proof -
  let ?req = "\<lparr>authorization = Some ''Bearer t'',
         get_json = JObj [(''title'', JStr ''New''), (''recipe'', JArr [])]\<rparr>"
  let ?d = "\<lparr>drink_id = 1, title = JStr ''Old'', recipe = ''[]''\<rparr>"
  let ?s = "\<lparr>rows = [?d], next_id = 2, calls = 0\<rparr>"
  have f: "filter (\<lambda>d. drink_id d = 1) (rows ?s) = [?d]" by simp
  have b: "get_json ?req = JObj [(''title'', JStr ''New''), (''recipe'', JArr [])]" by simp
  have k: "''recipe'' = ''title'' \<or> ''recipe'' = ''recipe''" by simp
  have m: "map_of [(''title'', JStr ''New''), (''recipe'', JArr [])] ''recipe'' = Some (JArr [])"
    by simp
  have n: "\<not> truthy (JArr [])" by simp
  show ?thesis
    using patch_falsy_value_as_absent [OF f b k m n] by (simp add: without_key_def)
qed

section \<open>Failures and the store\<close>









section \<open>The error envelope\<close>













section \<open>The stored recipe\<close>

















lemma recipes_round_trip_rows:
  "rows s' = rows s \<Longrightarrow> recipes_round_trip s' = recipes_round_trip s"
  by (simp add: recipes_round_trip_def)











section \<open>The public listing\<close>







end
